theory Spec2Isabelle
  imports Complex_Main
begin

section \<open>ExcelAnalyzer: column classification, numeric coercion, financial totals\<close>

text \<open>
  A shallow embedding of the core of \<^verbatim>\<open>scripts_datos_general.py\<close>: the class
  \<^verbatim>\<open>ExcelAnalyzer\<close> with \<^verbatim>\<open>_preparar_columnas_financieras\<close>,
  \<^verbatim>\<open>_identificar_columnas\<close> and \<^verbatim>\<open>calcular_totales_financieros\<close>.
  File selection, logging and the HTML template are not modelled.

  Numbers are exact rationals: the rounding of Python's binary floating point is not
  modelled. Strings are lists of 8-bit characters, and \<^verbatim>\<open>str.lower\<close> is modelled
  on the ASCII letters.
\<close>

subsection \<open>Strings\<close>

text \<open>\<^verbatim>\<open>str.lower()\<close>, on ASCII.\<close>

definition lower_char :: "char \<Rightarrow> char" where
  "lower_char c =
     (case map_of (zip ''ABCDEFGHIJKLMNOPQRSTUVWXYZ'' ''abcdefghijklmnopqrstuvwxyz'') c of
        None \<Rightarrow> c
      | Some d \<Rightarrow> d)"

definition lower :: "string \<Rightarrow> string" where
  "lower s = map lower_char s"

text \<open>\<^verbatim>\<open>s.startswith(sub)\<close> and the substring test \<^verbatim>\<open>sub in s\<close>.\<close>

fun startswith :: "string \<Rightarrow> string \<Rightarrow> bool" where
  "startswith s [] = True"
| "startswith [] (x # xs) = False"
| "startswith (y # ys) (x # xs) = (x = y \<and> startswith ys xs)"

fun str_in :: "string \<Rightarrow> string \<Rightarrow> bool" where
  "str_in sub [] = (sub = [])"
| "str_in sub (c # s) = (startswith (c # s) sub \<or> str_in sub s)"

subsection \<open>The data model\<close>

text \<open>
  A column label of a DataFrame is a \<^verbatim>\<open>str\<close> or some other object: an integer, or
  anything else, which is kept by its \<^verbatim>\<open>str()\<close> rendering.
\<close>

datatype colname = CStr string | CInt int | COtro string

text \<open>A cell is a number, a text, or missing (\<^verbatim>\<open>None\<close>, \<^verbatim>\<open>NaN\<close>, an empty cell).\<close>

datatype cell = Num rat | Txt string | Nulo

text \<open>
  A DataFrame is the ordered sequence of its labelled columns. \<^verbatim>\<open>df[c]\<close> reads the
  column labelled \<open>c\<close> and raises \<^verbatim>\<open>KeyError\<close> when there is none;
  \<^verbatim>\<open>df[c] = v\<close> replaces that column in place, or appends a new one
  (\<open>setitem\<close>, which is also the assignment \<^verbatim>\<open>d[k] = v\<close> of a \<^verbatim>\<open>dict\<close>,
  whose items keep their insertion order).
  The labels of a sheet read by \<^verbatim>\<open>pd.read_excel\<close> are pairwise different.
\<close>

type_synonym dataframe = "(colname \<times> cell list) list"

datatype error = KeyError | TypeError | AttributeError

definition columns :: "dataframe \<Rightarrow> colname list" where
  "columns df = map fst df"

definition df_getitem :: "dataframe \<Rightarrow> colname \<Rightarrow> error + cell list" where
  "df_getitem df c = (case map_of df c of None \<Rightarrow> Inl KeyError | Some col \<Rightarrow> Inr col)"

fun setitem :: "('k \<times> 'v) list \<Rightarrow> 'k \<Rightarrow> 'v \<Rightarrow> ('k \<times> 'v) list" where
  "setitem [] c v = [(c, v)]"
| "setitem ((k, w) # rest) c v =
     (if k = c then (k, v) # rest else (k, w) # setitem rest c v)"

text \<open>
  The configuration dictionary, with its two keys; \<open>None\<close> is an absent key.
  \<^verbatim>\<open>configuracion.get('calcular_iva', True)\<close> and
  \<^verbatim>\<open>configuracion.get('iva_rate', 0.16)\<close> read them.
\<close>

record config =
  calcular_iva :: "bool option"
  iva_rate :: "rat option"

definition get_calcular_iva :: "config \<Rightarrow> bool" where
  "get_calcular_iva cfg = (case calcular_iva cfg of None \<Rightarrow> True | Some b \<Rightarrow> b)"

definition get_iva_rate :: "config \<Rightarrow> rat" where
  "get_iva_rate cfg = (case iva_rate cfg of None \<Rightarrow> 16 / 100 | Some r \<Rightarrow> r)"

definition sin_configuracion :: config where
  "sin_configuracion = \<lparr>calcular_iva = None, iva_rate = None\<rparr>"

subsection \<open>Classification of the columns\<close>

definition COLUMNAS_FINANCIERAS :: "string list" where
  "COLUMNAS_FINANCIERAS =
     [''monto'', ''subtotal'', ''iva'', ''total'', ''descuento'',
      ''impuesto'', ''factura'', ''precio'']"

text \<open>
  The test of both \<^verbatim>\<open>_identificar_columnas\<close> and \<^verbatim>\<open>_preparar_columnas_financieras\<close>:
  \<^verbatim>\<open>isinstance(col, str) and any(termino in col.lower() for termino in COLUMNAS_FINANCIERAS)\<close>.
\<close>

fun es_financiera :: "colname \<Rightarrow> bool" where
  "es_financiera (CStr s) = list_ex (\<lambda>termino. str_in termino (lower s)) COLUMNAS_FINANCIERAS"
| "es_financiera (CInt n) = False"
| "es_financiera (COtro r) = False"

text \<open>
  \<^verbatim>\<open>_identificar_columnas\<close>: the two list comprehensions over \<^verbatim>\<open>df.columns\<close>; the
  second one tests \<^verbatim>\<open>col not in self.columnas_monetarias\<close>. The result is the pair
  (\<^verbatim>\<open>columnas_monetarias\<close>, \<^verbatim>\<open>columnas_no_monetarias\<close>).
\<close>

definition identificar_columnas :: "colname list \<Rightarrow> colname list \<times> colname list" where
  "identificar_columnas cols =
     (let columnas_monetarias = filter es_financiera cols;
          columnas_no_monetarias = filter (\<lambda>col. col \<notin> set columnas_monetarias) cols
      in (columnas_monetarias, columnas_no_monetarias))"

subsection \<open>Numeric coercion\<close>

text \<open>
  \<^verbatim>\<open>pd.to_numeric(col, errors='coerce')\<close> keeps a number, reads a text with the library's
  reader of numerals and turns what cannot be read into \<^verbatim>\<open>NaN\<close>. The reader belongs
  to pandas, not to this repository: it is the parameter \<open>leer\<close>, with \<open>leer s = Some r\<close>
  when the text \<open>s\<close> is a numeral of value \<open>r\<close>.
\<close>

type_synonym lector = "string \<Rightarrow> rat option"

fun to_numeric_cell :: "lector \<Rightarrow> cell \<Rightarrow> cell" where
  "to_numeric_cell leer (Num r) = Num r"
| "to_numeric_cell leer (Txt s) = (case leer s of None \<Rightarrow> Nulo | Some r \<Rightarrow> Num r)"
| "to_numeric_cell leer Nulo = Nulo"

definition to_numeric :: "lector \<Rightarrow> cell list \<Rightarrow> cell list" where
  "to_numeric leer col = map (to_numeric_cell leer) col"

text \<open>\<^verbatim>\<open>col.fillna(v)\<close>.\<close>

fun fillna_cell :: "rat \<Rightarrow> cell \<Rightarrow> cell" where
  "fillna_cell v Nulo = Num v"
| "fillna_cell v (Num r) = Num r"
| "fillna_cell v (Txt s) = Txt s"

definition fillna :: "rat \<Rightarrow> cell list \<Rightarrow> cell list" where
  "fillna v col = map (fillna_cell v) col"

text \<open>
  \<^verbatim>\<open>_preparar_columnas_financieras\<close> (the second definition of the class, which replaces
  the first): the loop over \<^verbatim>\<open>df.columns\<close>, with its two assignments to
  \<^verbatim>\<open>df[columna]\<close>.
\<close>

fun preparar_bucle :: "lector \<Rightarrow> colname list \<Rightarrow> dataframe \<Rightarrow> error + dataframe" where
  "preparar_bucle leer [] df = Inr df"
| "preparar_bucle leer (columna # resto) df =
     (if es_financiera columna then
        (case df_getitem df columna of
           Inl e \<Rightarrow> Inl e
         | Inr col \<Rightarrow>
             (let df1 = setitem df columna (to_numeric leer col) in
              (case df_getitem df1 columna of
                 Inl e \<Rightarrow> Inl e
               | Inr col1 \<Rightarrow> preparar_bucle leer resto (setitem df1 columna (fillna 0 col1)))))
      else preparar_bucle leer resto df)"

definition preparar_columnas_financieras :: "lector \<Rightarrow> dataframe \<Rightarrow> error + dataframe" where
  "preparar_columnas_financieras leer df = preparar_bucle leer (columns df) df"

text \<open>
  A reader of unsigned decimal integers, to evaluate the coercion on concrete tables.
\<close>

fun leer_digitos :: "string \<Rightarrow> nat \<Rightarrow> nat option" where
  "leer_digitos [] acc = Some acc"
| "leer_digitos (c # cs) acc =
     (case map_of (zip ''0123456789'' [0, 1, 2, 3, 4, 5, 6, 7, 8, 9]) c of
        None \<Rightarrow> None
      | Some d \<Rightarrow> leer_digitos cs (10 * acc + d))"

definition lector_digitos :: lector where
  "lector_digitos s = (if s = [] then None else map_option of_nat (leer_digitos s 0))"

subsection \<open>The analyzer\<close>

record analyzer =
  df :: dataframe
  columnas_monetarias :: "colname list"
  columnas_no_monetarias :: "colname list"
  configuracion :: config

text \<open>
  \<^verbatim>\<open>__init__\<close>, from the sheet that \<^verbatim>\<open>pd.read_excel\<close> returned:
  \<^verbatim>\<open>_cargar_archivo\<close> ends with \<^verbatim>\<open>_preparar_columnas_financieras(df)\<close>, then
  \<^verbatim>\<open>_identificar_columnas\<close> sets the two lists.
\<close>

definition ExcelAnalyzer :: "lector \<Rightarrow> dataframe \<Rightarrow> config \<Rightarrow> error + analyzer" where
  "ExcelAnalyzer leer hoja cfg =
     (case preparar_columnas_financieras leer hoja of
        Inl e \<Rightarrow> Inl e
      | Inr d \<Rightarrow>
          Inr \<lparr>df = d,
               columnas_monetarias = fst (identificar_columnas (columns d)),
               columnas_no_monetarias = snd (identificar_columnas (columns d)),
               configuracion = cfg\<rparr>)"

subsection \<open>Financial totals\<close>

text \<open>The rendering of a label in an f-string.\<close>

function str_nat :: "nat \<Rightarrow> string" where
  "str_nat n =
     (if n < 10 then [''0123456789'' ! n]
      else str_nat (n div 10) @ [''0123456789'' ! (n mod 10)])"
  by pat_completeness auto
termination
  by (relation "measure id") auto

definition str_int :: "int \<Rightarrow> string" where
  "str_int i = (if i < 0 then CHR ''-'' # str_nat (nat (- i)) else str_nat (nat i))"

fun str_of :: "colname \<Rightarrow> string" where
  "str_of (CStr s) = s"
| "str_of (CInt i) = str_int i"
| "str_of (COtro r) = r"

text \<open>
  \<^verbatim>\<open>Series.sum()\<close>: missing cells are skipped; a text cell among the numbers makes the
  addition raise \<^verbatim>\<open>TypeError\<close>.
\<close>

fun series_sum :: "cell list \<Rightarrow> error + rat" where
  "series_sum [] = Inr 0"
| "series_sum (Num r # cs) = (case series_sum cs of Inl e \<Rightarrow> Inl e | Inr t \<Rightarrow> Inr (r + t))"
| "series_sum (Nulo # cs) = series_sum cs"
| "series_sum (Txt s # cs) = Inl TypeError"

type_synonym totales = "(string \<times> rat) list"

text \<open>
  The body of the loop of \<^verbatim>\<open>calcular_totales_financieros\<close> for one column. The
  \<^verbatim>\<open>and\<close> of the test evaluates \<^verbatim>\<open>columna.lower()\<close> only when
  \<^verbatim>\<open>calcular_iva\<close> holds; a label that is not a \<^verbatim>\<open>str\<close> has no \<^verbatim>\<open>lower\<close>.
\<close>

definition totales_columna :: "analyzer \<Rightarrow> colname \<Rightarrow> totales \<Rightarrow> error + totales" where
  "totales_columna self columna totales =
     (case df_getitem (df self) columna of
        Inl e \<Rightarrow> Inl e
      | Inr col \<Rightarrow>
          (case series_sum col of
             Inl e \<Rightarrow> Inl e
           | Inr total_columna \<Rightarrow>
               (let totales1 = setitem totales (''Total '' @ str_of columna) total_columna in
                if get_calcular_iva (configuracion self) then
                  (case columna of
                     CStr s \<Rightarrow>
                       if \<not> str_in ''iva'' (lower s) then
                         (let iva_rate = get_iva_rate (configuracion self);
                              iva = total_columna * iva_rate;
                              totales2 = setitem totales1 (''IVA de '' @ s) iva
                          in Inr (setitem totales2 (''Total con IVA de '' @ s)
                                    (total_columna + iva)))
                       else Inr totales1
                   | CInt i \<Rightarrow> Inl AttributeError
                   | COtro r \<Rightarrow> Inl AttributeError)
                else Inr totales1)))"

fun totales_bucle :: "analyzer \<Rightarrow> colname list \<Rightarrow> totales \<Rightarrow> error + totales" where
  "totales_bucle self [] totales = Inr totales"
| "totales_bucle self (columna # resto) totales =
     (case totales_columna self columna totales of
        Inl e \<Rightarrow> Inl e
      | Inr totales' \<Rightarrow> totales_bucle self resto totales')"

text \<open>
  \<^verbatim>\<open>sum(valor for clave, valor in totales.items() if 'Total con IVA' in clave)\<close>.
\<close>

definition suma_total_con_iva :: "totales \<Rightarrow> rat" where
  "suma_total_con_iva totales =
     sum_list (map snd (filter (\<lambda>(clave, valor). str_in ''Total con IVA'' clave) totales))"

definition calcular_totales_financieros :: "analyzer \<Rightarrow> error + totales" where
  "calcular_totales_financieros self =
     (case totales_bucle self (columnas_monetarias self) [] of
        Inl e \<Rightarrow> Inl e
      | Inr totales \<Rightarrow> Inr (setitem totales ''Total Factura'' (suma_total_con_iva totales)))"

text \<open>
  Three notions to state the theorems with: the value of \<^verbatim>\<open>self.df[columna].sum()\<close>
  (0 where it raises), the test of the loop body (\<^verbatim>\<open>calcular_iva\<close> holds and the
  lowercase label has no \<^verbatim>\<open>'iva'\<close>), and the keys that the loop body assigns for a
  column.
\<close>

definition total_columna :: "analyzer \<Rightarrow> colname \<Rightarrow> rat" where
  "total_columna self columna =
     (case df_getitem (df self) columna of
        Inl e \<Rightarrow> 0
      | Inr col \<Rightarrow> (case series_sum col of Inl e \<Rightarrow> 0 | Inr t \<Rightarrow> t))"

definition aplica_iva :: "config \<Rightarrow> colname \<Rightarrow> bool" where
  "aplica_iva cfg columna \<longleftrightarrow> get_calcular_iva cfg \<and> \<not> str_in ''iva'' (lower (str_of columna))"

definition claves :: "config \<Rightarrow> colname \<Rightarrow> string set" where
  "claves cfg columna =
     (if aplica_iva cfg columna
      then {''Total '' @ str_of columna, ''IVA de '' @ str_of columna,
            ''Total con IVA de '' @ str_of columna}
      else {''Total '' @ str_of columna})"

subsection \<open>Example tables\<close>

text \<open>A table with text, empty and numeric cells in a monetary and in another column.\<close>

definition hoja_D :: dataframe where
  "hoja_D = [(CStr ''Precio'', [Txt ''abc'', Txt '''', Num 50, Txt ''7'', Nulo]),
             (CStr ''Nota'', [Txt ''abc'', Txt '''', Num 50, Txt ''7'', Nulo])]"

text \<open>
  Scenario A of the specification: \<^verbatim>\<open>Precio = [100, 200]\<close> between two columns that
  are not monetary, and the analyzer built from it with no configuration.
\<close>

definition hoja_A :: "cell list \<Rightarrow> cell list \<Rightarrow> dataframe" where
  "hoja_A fecha cantidad =
     [(CStr ''Fecha'', fecha), (CStr ''Precio'', [Num 100, Num 200]), (CStr ''Cantidad'', cantidad)]"



definition hoja_F :: dataframe where
  "hoja_F = [(CStr ''Factura'', [Num 100]), (CStr ''Nota'', [Txt ''pagada''])]"


subsection \<open>Facts about strings\<close>

lemma startswith_iff: "startswith s sub \<longleftrightarrow> (\<exists>q. s = sub @ q)"
  by (induction s sub rule: startswith.induct) auto

lemma str_in_iff: "str_in sub s \<longleftrightarrow> (\<exists>p q. s = p @ sub @ q)"
proof (induction s)
  case Nil
  then show ?case by auto
next
  case (Cons c s)
  have "(\<exists>p q. c # s = p @ sub @ q) \<longleftrightarrow> (\<exists>q. c # s = sub @ q) \<or> (\<exists>p q. s = p @ sub @ q)"
  proof
    assume "\<exists>p q. c # s = p @ sub @ q"
    then obtain p q where pq: "c # s = p @ sub @ q" by blast
    show "(\<exists>q. c # s = sub @ q) \<or> (\<exists>p q. s = p @ sub @ q)"
    proof (cases p)
      case Nil
      with pq show ?thesis by auto
    next
      case (Cons a p')
      with pq have "s = p' @ sub @ q" by simp
      then show ?thesis by blast
    qed
  next
    assume "(\<exists>q. c # s = sub @ q) \<or> (\<exists>p q. s = p @ sub @ q)"
    then show "\<exists>p q. c # s = p @ sub @ q"
    proof
      assume "\<exists>q. c # s = sub @ q"
      then obtain q where "c # s = [] @ sub @ q" by auto
      then show ?thesis by blast
    next
      assume "\<exists>p q. s = p @ sub @ q"
      then obtain p q where "c # s = (c # p) @ sub @ q" by auto
      then show ?thesis by blast
    qed
  qed
  with Cons show ?case by (simp add: startswith_iff)
qed

lemma es_financiera_CStr:
  "es_financiera (CStr s) \<longleftrightarrow>
     (\<exists>termino p q. termino \<in> set COLUMNAS_FINANCIERAS \<and> lower s = p @ termino @ q)"
  by (auto simp: list_ex_iff str_in_iff)

lemma no_monetarias_filter:
  "snd (identificar_columnas cols) = filter (\<lambda>col. \<not> es_financiera col) cols"
  by (simp add: identificar_columnas_def Let_def cong: filter_cong)

lemma monetarias_filter:
  "fst (identificar_columnas cols) = filter es_financiera cols"
  by (simp add: identificar_columnas_def Let_def)

subsection \<open>Classification: the theorems\<close>

text \<open>
  C2. For every list of column labels, the classification is a total and disjoint
  partition: each partition is the sublist, in table order, of the labels that pass
  (respectively fail) the test, every label is in one of them, none is in both, and every
  occurrence of a label is in exactly one partition.
\<close>

theorem C2_particion:
  "set (fst (identificar_columnas cols)) \<union> set (snd (identificar_columnas cols)) = set cols
   \<and> set (fst (identificar_columnas cols)) \<inter> set (snd (identificar_columnas cols)) = {}
   \<and> fst (identificar_columnas cols) = filter es_financiera cols
   \<and> snd (identificar_columnas cols) = filter (\<lambda>col. \<not> es_financiera col) cols
   \<and> length (fst (identificar_columnas cols)) + length (snd (identificar_columnas cols))
       = length cols"
proof -
  have "length (filter es_financiera cols) + length (filter (\<lambda>col. \<not> es_financiera col) cols)
          = length cols"
    by (rule sum_length_filter_compl)
  then show ?thesis
    unfolding no_monetarias_filter monetarias_filter by auto
qed

text \<open>
  C3. A \<^verbatim>\<open>str\<close> label of the table is classified monetary if and only if its lowercase
  form contains one of the eight keywords as a substring, at any position;
  \<^verbatim>\<open>'Precio Unitario'\<close> and \<^verbatim>\<open>'PRECIOSO'\<close> are both monetary.
\<close>

theorem C3_palabras_clave:
  "(CStr s \<in> set (fst (identificar_columnas cols)) \<longleftrightarrow>
      CStr s \<in> set cols \<and>
      (\<exists>termino p q.
          termino \<in> set [''monto'', ''subtotal'', ''iva'', ''total'', ''descuento'',
                          ''impuesto'', ''factura'', ''precio'']
          \<and> lower s = p @ termino @ q))
   \<and> fst (identificar_columnas [CStr ''Precio Unitario'', CStr ''PRECIOSO''])
       = [CStr ''Precio Unitario'', CStr ''PRECIOSO'']"
proof -
  have a: "CStr s \<in> set (fst (identificar_columnas cols)) \<longleftrightarrow>
      CStr s \<in> set cols \<and>
      (\<exists>termino p q.
          termino \<in> set [''monto'', ''subtotal'', ''iva'', ''total'', ''descuento'',
                          ''impuesto'', ''factura'', ''precio'']
          \<and> lower s = p @ termino @ q)"
    unfolding monetarias_filter
    using es_financiera_CStr [of s] by (auto simp: COLUMNAS_FINANCIERAS_def)
  have b: "fst (identificar_columnas [CStr ''Precio Unitario'', CStr ''PRECIOSO''])
       = [CStr ''Precio Unitario'', CStr ''PRECIOSO'']"
    by (simp add: monetarias_filter COLUMNAS_FINANCIERAS_def lower_def lower_char_def)
  from a b show ?thesis by blast
qed

text \<open>
  C4. A label that is not a \<^verbatim>\<open>str\<close> is never monetary, whatever its rendering: in every
  table it is in \<^verbatim>\<open>columnas_no_monetarias\<close> and not in \<^verbatim>\<open>columnas_monetarias\<close>.
\<close>

theorem C4_no_cadena:
  "(\<forall>s. col \<noteq> CStr s) \<and> col \<in> set cols \<Longrightarrow>
     col \<in> set (snd (identificar_columnas cols))
     \<and> col \<notin> set (fst (identificar_columnas cols))"
  unfolding no_monetarias_filter monetarias_filter
  by (cases col) auto

theorem C4_no_cadena_witness:
  "COtro ''(total, 1)'' \<in> set (snd (identificar_columnas [CStr ''Total'', CInt 2024, COtro ''(total, 1)'']))
   \<and> COtro ''(total, 1)'' \<notin> set (fst (identificar_columnas [CStr ''Total'', CInt 2024, COtro ''(total, 1)'']))
   \<and> CInt 2024 \<in> set (snd (identificar_columnas [CStr ''Total'', CInt 2024, COtro ''(total, 1)'']))"
  using C4_no_cadena [of "COtro ''(total, 1)''" "[CStr ''Total'', CInt 2024, COtro ''(total, 1)'']"]
    C4_no_cadena [of "CInt 2024" "[CStr ''Total'', CInt 2024, COtro ''(total, 1)'']"]
  by simp

subsection \<open>Numeric coercion: the theorems\<close>

lemma map_of_pre:
  "c \<notin> fst ` set pre \<Longrightarrow> map_of (pre @ (c, col) # post) c = Some col"
  by (induction pre) auto

lemma setitem_pre:
  "c \<notin> fst ` set pre \<Longrightarrow> setitem (pre @ (c, col) # post) c v = pre @ (c, v) # post"
  by (induction pre) auto

lemma df_getitem_pre:
  "c \<notin> fst ` set pre \<Longrightarrow> df_getitem (pre @ (c, col) # post) c = Inr col"
proof -
  assume "c \<notin> fst ` set pre"
  then have "map_of (pre @ (c, col) # post) c = Some col" by (rule map_of_pre)
  then show ?thesis unfolding df_getitem_def by (simp only: option.case)
qed

lemma df_getitem_distinct:
  "distinct (map fst d) \<Longrightarrow> (c, col) \<in> set d \<Longrightarrow> df_getitem d c = Inr col"
  by (simp add: df_getitem_def)

lemma preparar_bucle_map:
  "distinct (map fst (pre @ post)) \<Longrightarrow>
   preparar_bucle leer (map fst post)
       (map (\<lambda>(c, col). (c, if es_financiera c then fillna 0 (to_numeric leer col) else col)) pre @ post)
     = Inr (map (\<lambda>(c, col). (c, if es_financiera c then fillna 0 (to_numeric leer col) else col))
              (pre @ post))"
proof (induction post arbitrary: pre)
  case Nil
  then show ?case by simp
next
  case (Cons x post)
  obtain c col where x: "x = (c, col)" by (cases x)
  let ?G = "\<lambda>(c, col). (c, if es_financiera c then fillna 0 (to_numeric leer col) else col)"
  have fresh: "c \<notin> fst ` set (map ?G pre)"
    using Cons.prems x by (auto simp: image_iff)
  have d: "distinct (map fst ((pre @ [x]) @ post))" using Cons.prems by simp
  have ih: "preparar_bucle leer (map fst post) (map ?G (pre @ [x]) @ post)
              = Inr (map ?G ((pre @ [x]) @ post))"
    by (rule Cons.IH [OF d])
  show ?case
  proof (cases "es_financiera c")
    case True
    then show ?thesis
      using ih fresh x by (simp add: df_getitem_pre setitem_pre Let_def)
  next
    case False
    then show ?thesis using ih x by simp
  qed
qed

lemma preparar_eq:
  "distinct (columns hoja) \<Longrightarrow>
   preparar_columnas_financieras leer hoja
     = Inr (map (\<lambda>(c, col). (c, if es_financiera c then fillna 0 (to_numeric leer col) else col)) hoja)"
  using preparar_bucle_map [of "[]" hoja leer]
  by (simp add: preparar_columnas_financieras_def columns_def)

lemma coaccion_celda:
  "fillna_cell 0 (to_numeric_cell leer x) =
     (case x of Num r \<Rightarrow> Num r
      | Txt s \<Rightarrow> (case leer s of Some r \<Rightarrow> Num r | None \<Rightarrow> Num 0)
      | Nulo \<Rightarrow> Num 0)"
  by (cases x) (auto split: option.splits)

lemma coaccion_idem_celda:
  "fillna_cell 0 (to_numeric_cell leer (fillna_cell 0 (to_numeric_cell leer x)))
     = fillna_cell 0 (to_numeric_cell leer x)"
  by (cases x) (auto split: option.splits)

lemma coaccion_idem:
  "fillna 0 (to_numeric leer (fillna 0 (to_numeric leer col))) = fillna 0 (to_numeric leer col)"
  by (simp add: fillna_def to_numeric_def coaccion_idem_celda)

lemma coaccion_nth:
  "i < length col \<Longrightarrow>
   fillna 0 (to_numeric leer col) ! i =
     (case col ! i of Num r \<Rightarrow> Num r
      | Txt s \<Rightarrow> (case leer s of Some r \<Rightarrow> Num r | None \<Rightarrow> Num 0)
      | Nulo \<Rightarrow> Num 0)"
  by (simp add: fillna_def to_numeric_def coaccion_celda)

lemma columns_map_coaccion:
  "columns (map (\<lambda>(c, col). (c, if es_financiera c then fillna 0 (to_numeric leer col) else col)) hoja)
     = columns hoja"
  by (induction hoja) (auto simp: columns_def)

text \<open>
  C5. On a sheet with pairwise different labels the coercion pass does not raise. It keeps
  the labels, and each monetary column keeps its length: a number stays, a text that
  the reader reads becomes its value, and a text that cannot be read or a missing cell
  becomes exactly zero; a column without rows stays without rows.
\<close>

theorem C5_coaccion:
  assumes "distinct (columns hoja)"
  shows "\<exists>d. preparar_columnas_financieras leer hoja = Inr d
           \<and> columns d = columns hoja
           \<and> (\<forall>c col. (c, col) \<in> set hoja \<and> es_financiera c \<longrightarrow>
                 (\<exists>col'. df_getitem d c = Inr col'
                    \<and> length col' = length col
                    \<and> (col = [] \<longrightarrow> col' = [])
                    \<and> (\<forall>i. i < length col \<longrightarrow>
                          col' ! i =
                            (case col ! i of
                               Num r \<Rightarrow> Num r
                             | Txt s \<Rightarrow> (case leer s of Some r \<Rightarrow> Num r | None \<Rightarrow> Num 0)
                             | Nulo \<Rightarrow> Num 0))))"
proof -
  let ?G = "\<lambda>(c, col). (c, if es_financiera c then fillna 0 (to_numeric leer col) else col)"
  let ?d = "map ?G hoja"
  have run: "preparar_columnas_financieras leer hoja = Inr ?d"
    using assms by (rule preparar_eq)
  have cols: "columns ?d = columns hoja" by (rule columns_map_coaccion)
  have dd: "distinct (map fst ?d)" using assms cols unfolding columns_def by (simp only:)
  have cells: "\<exists>col'. df_getitem ?d c = Inr col'
                    \<and> length col' = length col
                    \<and> (col = [] \<longrightarrow> col' = [])
                    \<and> (\<forall>i. i < length col \<longrightarrow>
                          col' ! i =
                            (case col ! i of
                               Num r \<Rightarrow> Num r
                             | Txt s \<Rightarrow> (case leer s of Some r \<Rightarrow> Num r | None \<Rightarrow> Num 0)
                             | Nulo \<Rightarrow> Num 0))"
    if h: "(c, col) \<in> set hoja \<and> es_financiera c" for c col
  proof -
    from h have "(c, fillna 0 (to_numeric leer col)) \<in> set ?d" by force
    with dd have g: "df_getitem ?d c = Inr (fillna 0 (to_numeric leer col))"
      by (rule df_getitem_distinct)
    have l: "length (fillna 0 (to_numeric leer col)) = length col"
      by (simp add: fillna_def to_numeric_def)
    from g l show ?thesis by (auto simp: coaccion_nth)
  qed
  from run cols cells show ?thesis by blast
qed

theorem C5_coaccion_witness:
  "distinct (columns hoja_D)
   \<and> preparar_columnas_financieras lector_digitos hoja_D
       = Inr [(CStr ''Precio'', [Num 0, Num 0, Num 50, Num 7, Num 0]),
              (CStr ''Nota'', [Txt ''abc'', Txt '''', Num 50, Txt ''7'', Nulo])]"
proof -
  have h: "distinct (columns hoja_D)" by (simp add: hoja_D_def columns_def)
  have "preparar_columnas_financieras lector_digitos hoja_D
       = Inr [(CStr ''Precio'', [Num 0, Num 0, Num 50, Num 7, Num 0]),
              (CStr ''Nota'', [Txt ''abc'', Txt '''', Num 50, Txt ''7'', Nulo])]"
    using C5_coaccion [OF h, of lector_digitos]
    by (simp add: hoja_D_def preparar_columnas_financieras_def columns_def
        COLUMNAS_FINANCIERAS_def lower_def lower_char_def df_getitem_def
        to_numeric_def fillna_def lector_digitos_def)
  with h show ?thesis by simp
qed

text \<open>
  C8. The coercion is idempotent: a second pass over a coerced table returns it unchanged,
  coercing a coerced column changes nothing, and a column of numbers is its own
  coercion.
\<close>

theorem C8_idempotente:
  assumes "distinct (columns hoja)"
  shows "(\<exists>d. preparar_columnas_financieras leer hoja = Inr d
             \<and> preparar_columnas_financieras leer d = Inr d)
         \<and> fillna 0 (to_numeric leer (fillna 0 (to_numeric leer col)))
             = fillna 0 (to_numeric leer col)
         \<and> fillna 0 (to_numeric leer (map Num rs)) = map Num rs"
proof -
  let ?G = "\<lambda>(c, col). (c, if es_financiera c then fillna 0 (to_numeric leer col) else col)"
  let ?d = "map ?G hoja"
  have run: "preparar_columnas_financieras leer hoja = Inr ?d"
    using assms by (rule preparar_eq)
  have "columns ?d = columns hoja" by (rule columns_map_coaccion)
  with assms have "distinct (columns ?d)" by simp
  then have "preparar_columnas_financieras leer ?d = Inr (map ?G ?d)"
    by (rule preparar_eq)
  moreover have "map ?G ?d = ?d"
    by (auto simp: coaccion_idem)
  ultimately have again: "preparar_columnas_financieras leer ?d = Inr ?d" by simp
  have num: "fillna 0 (to_numeric leer (map Num rs)) = map Num rs"
    by (induction rs) (auto simp: fillna_def to_numeric_def)
  from run again num show ?thesis by (auto simp: coaccion_idem)
qed

theorem C8_idempotente_witness:
  "distinct (columns hoja_D)
   \<and> preparar_columnas_financieras lector_digitos
        [(CStr ''Precio'', [Num 0, Num 0, Num 50, Num 7, Num 0]),
         (CStr ''Nota'', [Txt ''abc'', Txt '''', Num 50, Txt ''7'', Nulo])]
       = Inr [(CStr ''Precio'', [Num 0, Num 0, Num 50, Num 7, Num 0]),
              (CStr ''Nota'', [Txt ''abc'', Txt '''', Num 50, Txt ''7'', Nulo])]"
proof -
  have h: "distinct (columns hoja_D)" by (simp add: hoja_D_def columns_def)
  have e: "preparar_columnas_financieras lector_digitos hoja_D
       = Inr [(CStr ''Precio'', [Num 0, Num 0, Num 50, Num 7, Num 0]),
              (CStr ''Nota'', [Txt ''abc'', Txt '''', Num 50, Txt ''7'', Nulo])]"
    by (simp add: hoja_D_def preparar_columnas_financieras_def columns_def
        COLUMNAS_FINANCIERAS_def lower_def lower_char_def df_getitem_def
        to_numeric_def fillna_def lector_digitos_def)
  from C8_idempotente [OF h, of lector_digitos] e h show ?thesis by auto
qed

subsection \<open>The coercion pass leaves the other columns alone\<close>

lemma ExcelAnalyzer_eq:
  "distinct (columns hoja) \<Longrightarrow>
   ExcelAnalyzer leer hoja cfg =
     Inr \<lparr>df = map (\<lambda>(c, col). (c, if es_financiera c then fillna 0 (to_numeric leer col) else col)) hoja,
          columnas_monetarias = filter es_financiera (columns hoja),
          columnas_no_monetarias = filter (\<lambda>col. \<not> es_financiera col) (columns hoja),
          configuracion = cfg\<rparr>"
  by (simp add: ExcelAnalyzer_def preparar_eq columns_map_coaccion monetarias_filter
      no_monetarias_filter)

text \<open>
  C9. The coercion pass changes only the monetary columns: on a sheet with pairwise
  different labels, every column that is not in \<^verbatim>\<open>columnas_monetarias\<close>, and so every
  column whose label is not a \<^verbatim>\<open>str\<close>, has its original cells, at its original
  position.
\<close>

theorem C9_marco:
  assumes "distinct (columns hoja)"
  shows "\<exists>self. ExcelAnalyzer leer hoja cfg = Inr self
           \<and> columns (df self) = columns hoja
           \<and> (\<forall>c col. (c, col) \<in> set hoja \<and> c \<notin> set (columnas_monetarias self) \<longrightarrow>
                 df_getitem (df self) c = Inr col)
           \<and> (\<forall>c col. (c, col) \<in> set hoja \<and> (\<forall>s. c \<noteq> CStr s) \<longrightarrow>
                 df_getitem (df self) c = Inr col)
           \<and> (\<forall>i. i < length hoja \<and> fst (hoja ! i) \<notin> set (columnas_monetarias self) \<longrightarrow>
                 df self ! i = hoja ! i)"
proof -
  let ?G = "\<lambda>(c, col). (c, if es_financiera c then fillna 0 (to_numeric leer col) else col)"
  let ?d = "map ?G hoja"
  let ?self = "\<lparr>df = ?d, columnas_monetarias = filter es_financiera (columns hoja),
          columnas_no_monetarias = filter (\<lambda>col. \<not> es_financiera col) (columns hoja),
          configuracion = cfg\<rparr>"
  have run: "ExcelAnalyzer leer hoja cfg = Inr ?self"
    using assms by (rule ExcelAnalyzer_eq)
  have cols: "columns ?d = columns hoja" by (rule columns_map_coaccion)
  have dd: "distinct (map fst ?d)" using assms cols unfolding columns_def by (simp only:)
  have no_fin: "df_getitem ?d c = Inr col" if "(c, col) \<in> set hoja" "\<not> es_financiera c" for c col
  proof -
    from that have "(c, col) \<in> set ?d" by force
    with dd show ?thesis by (rule df_getitem_distinct)
  qed
  have a: "df_getitem ?d c = Inr col"
    if "(c, col) \<in> set hoja \<and> c \<notin> set (filter es_financiera (columns hoja))" for c col
  proof -
    from that have "c \<in> set (columns hoja)" by (force simp: columns_def)
    with that have "\<not> es_financiera c" by simp
    with that show ?thesis by (simp add: no_fin)
  qed
  have b: "df_getitem ?d c = Inr col" if "(c, col) \<in> set hoja \<and> (\<forall>s. c \<noteq> CStr s)" for c col
  proof -
    from that have "\<not> es_financiera c" by (cases c) auto
    with that show ?thesis by (simp add: no_fin)
  qed
  have c: "?d ! i = hoja ! i"
    if "i < length hoja \<and> fst (hoja ! i) \<notin> set (filter es_financiera (columns hoja))" for i
  proof -
    from that have "fst (hoja ! i) \<in> set (columns hoja)" by (simp add: columns_def)
    with that have "\<not> es_financiera (fst (hoja ! i))" by simp
    with that show ?thesis by (cases "hoja ! i") simp
  qed
  from run cols a b c show ?thesis by (intro exI [of _ ?self]) simp
qed

theorem C9_marco_witness:
  "distinct (columns hoja_D)
   \<and> (\<exists>self. ExcelAnalyzer lector_digitos hoja_D sin_configuracion = Inr self
         \<and> columnas_monetarias self = [CStr ''Precio'']
         \<and> df_getitem (df self) (CStr ''Nota'') = Inr [Txt ''abc'', Txt '''', Num 50, Txt ''7'', Nulo])"
proof -
  have h: "distinct (columns hoja_D)" by (simp add: hoja_D_def columns_def)
  have m: "filter es_financiera (columns hoja_D) = [CStr ''Precio'']"
    by (simp add: hoja_D_def columns_def COLUMNAS_FINANCIERAS_def lower_def lower_char_def)
  have e: "(CStr ''Nota'', [Txt ''abc'', Txt '''', Num 50, Txt ''7'', Nulo]) \<in> set hoja_D"
    by (simp add: hoja_D_def)
  from C9_marco [OF h, of lector_digitos sin_configuracion]
  obtain self where s: "ExcelAnalyzer lector_digitos hoja_D sin_configuracion = Inr self"
    and f: "\<forall>c col. (c, col) \<in> set hoja_D \<and> c \<notin> set (columnas_monetarias self) \<longrightarrow>
                 df_getitem (df self) c = Inr col"
    by blast
  from s have ms: "columnas_monetarias self = [CStr ''Precio'']"
    using m by (auto simp: ExcelAnalyzer_eq [OF h])
  with f e have "df_getitem (df self) (CStr ''Nota'') = Inr [Txt ''abc'', Txt '''', Num 50, Txt ''7'', Nulo]"
    by auto
  with h s ms show ?thesis by blast
qed

subsection \<open>Facts about the loop of the totals\<close>






lemma map_of_setitem:
  "map_of (setitem d k v) k' = (if k' = k then Some v else map_of d k')"
  by (induction d) auto

lemma keys_setitem: "set (map fst (setitem d k v)) = insert k (set (map fst d))"
proof (induction d)
  case Nil
  then show ?case by simp
next
  case (Cons x d)
  obtain a b where x: "x = (a, b)" by (cases x)
  show ?case
  proof (cases "a = k")
    case True
    with x show ?thesis by simp
  next
    case False
    with x Cons show ?thesis by (simp add: insert_commute)
  qed
qed

lemma map_fst_setitem_in:
  "k \<in> set (map fst d) \<Longrightarrow> map fst (setitem d k v) = map fst d"
proof (induction d)
  case Nil
  then show ?case by simp
next
  case (Cons x d)
  obtain a b where x: "x = (a, b)" by (cases x)
  show ?case
  proof (cases "a = k")
    case True
    with x show ?thesis by simp
  next
    case False
    with x Cons.prems have "k \<in> set (map fst d)" by simp
    with Cons.IH x False show ?thesis by simp
  qed
qed



lemma series_sum_coaccion: "\<exists>t. series_sum (fillna 0 (to_numeric leer col)) = Inr t"
proof (induction col)
  case Nil
  then show ?case by (simp add: fillna_def to_numeric_def)
next
  case (Cons x col)
  then obtain t where "series_sum (fillna 0 (to_numeric leer col)) = Inr t" by blast
  then show ?case
    by (cases x) (auto simp: fillna_def to_numeric_def split: option.splits)
qed

lemma totales_columna_CStr:
  assumes "df_getitem (df self) (CStr s) = Inr col" and "series_sum col = Inr t"
  shows "totales_columna self (CStr s) d =
           Inr (if aplica_iva (configuracion self) (CStr s)
                then setitem (setitem (setitem d (''Total '' @ s) t)
                        (''IVA de '' @ s) (t * get_iva_rate (configuracion self)))
                        (''Total con IVA de '' @ s) (t + t * get_iva_rate (configuracion self))
                else setitem d (''Total '' @ s) t)"
  using assms by (simp add: totales_columna_def aplica_iva_def Let_def)


lemma TCI_de_inj: "''Total con IVA de '' @ s = ''Total con IVA de '' @ s' \<longleftrightarrow> s = s'"
  by simp



lemma distinct_setitem:
  "distinct (map fst d) \<Longrightarrow> distinct (map fst (setitem d k v))"
proof (cases "k \<in> set (map fst d)")
  case True
  assume "distinct (map fst d)"
  with True show ?thesis by (simp only: map_fst_setitem_in)
next
  case False
  assume dd: "distinct (map fst d)"
  have "setitem d k v = d @ [(k, v)]" using False by (induction d) auto
  with dd False show ?thesis by simp
qed

lemma paso_claves:
  assumes "df_getitem (df self) (CStr s) = Inr col" and "series_sum col = Inr t"
    and "totales_columna self (CStr s) d = Inr d'"
  shows "set (map fst d') = set (map fst d) \<union> claves (configuracion self) (CStr s)"
    and "k \<notin> claves (configuracion self) (CStr s) \<Longrightarrow> map_of d' k = map_of d k"
    and "distinct (map fst d) \<Longrightarrow> distinct (map fst d')"
proof -
  have eq: "d' = (if aplica_iva (configuracion self) (CStr s)
                then setitem (setitem (setitem d (''Total '' @ s) t)
                        (''IVA de '' @ s) (t * get_iva_rate (configuracion self)))
                        (''Total con IVA de '' @ s) (t + t * get_iva_rate (configuracion self))
                else setitem d (''Total '' @ s) t)"
    using totales_columna_CStr [OF assms(1,2), of d] assms(3) by simp
  show "set (map fst d') = set (map fst d) \<union> claves (configuracion self) (CStr s)"
    unfolding eq claves_def by (auto simp only: keys_setitem str_of.simps split: if_splits)
  show "map_of d' k = map_of d k" if "k \<notin> claves (configuracion self) (CStr s)"
    using that unfolding eq claves_def by (auto simp: map_of_setitem split: if_splits)
  show "distinct (map fst d')" if "distinct (map fst d)"
    using that unfolding eq by (simp add: distinct_setitem)
qed

lemma bucle_claves:
  assumes "\<forall>c \<in> set cs. \<exists>s col t. c = CStr s \<and> df_getitem (df self) c = Inr col
                  \<and> series_sum col = Inr t"
  shows "\<exists>d'. totales_bucle self cs d = Inr d'
           \<and> set (map fst d') = set (map fst d) \<union> (\<Union>c \<in> set cs. claves (configuracion self) c)
           \<and> (\<forall>k. k \<notin> (\<Union>c \<in> set cs. claves (configuracion self) c) \<longrightarrow>
                  map_of d' k = map_of d k)
           \<and> (distinct (map fst d) \<longrightarrow> distinct (map fst d'))"
  using assms
proof (induction cs arbitrary: d)
  case Nil
  then show ?case by simp
next
  case (Cons c cs)
  from Cons.prems obtain s col t where c: "c = CStr s"
    and g: "df_getitem (df self) (CStr s) = Inr col" and t: "series_sum col = Inr t"
    by auto
  obtain d1 where p: "totales_columna self (CStr s) d = Inr d1"
    using totales_columna_CStr [OF g t] by blast
  note f = paso_claves [OF g t p]
  from Cons.prems have "\<forall>c \<in> set cs. \<exists>s col t. c = CStr s \<and> df_getitem (df self) c = Inr col
                  \<and> series_sum col = Inr t" by simp
  from Cons.IH [OF this, of d1] obtain d' where run: "totales_bucle self cs d1 = Inr d'"
    and k: "set (map fst d') = set (map fst d1) \<union> (\<Union>c \<in> set cs. claves (configuracion self) c)"
    and m: "\<forall>k. k \<notin> (\<Union>c \<in> set cs. claves (configuracion self) c) \<longrightarrow>
                  map_of d' k = map_of d1 k"
    and dd: "distinct (map fst d1) \<longrightarrow> distinct (map fst d')"
    by blast
  have "totales_bucle self (c # cs) d = Inr d'" using p run c by simp
  moreover have "set (map fst d') = set (map fst d) \<union> (\<Union>c \<in> set (c # cs). claves (configuracion self) c)"
    using k f(1) c by auto
  moreover have "\<forall>k. k \<notin> (\<Union>c \<in> set (c # cs). claves (configuracion self) c) \<longrightarrow>
                  map_of d' k = map_of d k"
    using m f(2) c by auto
  moreover have "distinct (map fst d) \<longrightarrow> distinct (map fst d')"
    using dd f(3) by blast
  ultimately show ?case by blast
qed

lemma bucle_append:
  "totales_bucle self (xs @ ys) d =
     (case totales_bucle self xs d of Inl e \<Rightarrow> Inl e | Inr d1 \<Rightarrow> totales_bucle self ys d1)"
  by (induction xs arbitrary: d) (auto split: sum.splits)

subsection \<open>Financial totals: the theorems\<close>

lemma analyzer_ok:
  assumes "distinct (columns hoja)"
    and "c \<in> set (filter es_financiera (columns hoja))"
  shows "\<exists>s col t. c = CStr s
           \<and> df_getitem (map (\<lambda>(c, col). (c, if es_financiera c then fillna 0 (to_numeric leer col) else col)) hoja) c
               = Inr col
           \<and> series_sum col = Inr t"
proof -
  let ?G = "\<lambda>(c, col). (c, if es_financiera c then fillna 0 (to_numeric leer col) else col)"
  from assms(2) have fin: "es_financiera c" and "c \<in> set (columns hoja)" by auto
  then obtain col where m: "(c, col) \<in> set hoja" by (auto simp: columns_def)
  from fin obtain s where s: "c = CStr s" by (cases c) auto
  have "columns (map ?G hoja) = columns hoja" by (rule columns_map_coaccion)
  with assms(1) have dd: "distinct (map fst (map ?G hoja))"
    unfolding columns_def by (simp only:)
  from m fin have "(c, fillna 0 (to_numeric leer col)) \<in> set (map ?G hoja)" by force
  with dd have "df_getitem (map ?G hoja) c = Inr (fillna 0 (to_numeric leer col))"
    by (rule df_getitem_distinct)
  moreover obtain t where "series_sum (fillna 0 (to_numeric leer col)) = Inr t"
    using series_sum_coaccion by blast
  ultimately show ?thesis using s by blast
qed



lemmas evalua =
  ExcelAnalyzer_def preparar_columnas_financieras_def columns_def
  COLUMNAS_FINANCIERAS_def lower_def lower_char_def df_getitem_def
  to_numeric_def fillna_def identificar_columnas_def Let_def
  calcular_totales_financieros_def totales_columna_def suma_total_con_iva_def
  get_calcular_iva_def get_iva_rate_def sin_configuracion_def




text \<open>
  C7. Scenario A: whatever the cells of \<^verbatim>\<open>Fecha\<close> and \<^verbatim>\<open>Cantidad\<close>, the only monetary
  column is \<^verbatim>\<open>Precio\<close> and the totals are, in this order, 300, 48, 348 and 348.
\<close>

theorem C7_escenario_A:
  "\<exists>self. ExcelAnalyzer leer (hoja_A fecha cantidad) \<lparr>calcular_iva = Some True, iva_rate = Some (16 / 100)\<rparr>
            = Inr self
     \<and> columnas_monetarias self = [CStr ''Precio'']
     \<and> columnas_no_monetarias self = [CStr ''Fecha'', CStr ''Cantidad'']
     \<and> calcular_totales_financieros self
         = Inr [(''Total Precio'', 300), (''IVA de Precio'', 48),
                (''Total con IVA de Precio'', 348), (''Total Factura'', 348)]"
  by (simp add: evalua hoja_A_def)



lemma Total_Factura_no_clave:
  "y \<noteq> ''Factura'' \<Longrightarrow> ''Total Factura'' \<notin> claves cfg (CStr y)"
  by (auto simp: claves_def)

lemma bucle_Total_Factura:
  assumes "\<forall>c \<in> set cs. \<exists>s col t. c = CStr s \<and> df_getitem (df self) c = Inr col
                  \<and> series_sum col = Inr t"
    and "distinct cs" and "CStr ''Factura'' \<in> set cs"
  shows "\<exists>d'. totales_bucle self cs d = Inr d'
           \<and> map_of d' ''Total Factura'' = Some (total_columna self (CStr ''Factura''))"
  using assms
proof (induction cs arbitrary: d)
  case Nil
  then show ?case by simp
next
  case (Cons c cs)
  from Cons.prems(1) obtain s col t where c: "c = CStr s"
    and g: "df_getitem (df self) (CStr s) = Inr col" and t: "series_sum col = Inr t"
    by auto
  obtain d1 where p: "totales_columna self (CStr s) d = Inr d1"
    and d1: "d1 = (if aplica_iva (configuracion self) (CStr s)
                then setitem (setitem (setitem d (''Total '' @ s) t)
                        (''IVA de '' @ s) (t * get_iva_rate (configuracion self)))
                        (''Total con IVA de '' @ s) (t + t * get_iva_rate (configuracion self))
                else setitem d (''Total '' @ s) t)"
    using totales_columna_CStr [OF g t] by blast
  have ok: "\<forall>c \<in> set cs. \<exists>s col t. c = CStr s \<and> df_getitem (df self) c = Inr col
                  \<and> series_sum col = Inr t" using Cons.prems(1) by simp
  show ?case
  proof (cases "s = ''Factura''")
    case True
    have tc: "total_columna self (CStr ''Factura'') = t"
      using g t True by (simp add: total_columna_def)
    have v: "map_of d1 ''Total Factura'' = Some t"
      unfolding d1 using True by (simp add: map_of_setitem)
    from bucle_claves [OF ok, of d1] obtain d' where run: "totales_bucle self cs d1 = Inr d'"
      and m: "\<forall>k. k \<notin> (\<Union>c \<in> set cs. claves (configuracion self) c) \<longrightarrow>
                  map_of d' k = map_of d1 k"
      by blast
    have "''Total Factura'' \<notin> (\<Union>c \<in> set cs. claves (configuracion self) c)"
    proof
      assume "''Total Factura'' \<in> (\<Union>c \<in> set cs. claves (configuracion self) c)"
      then obtain c' where c': "c' \<in> set cs" and k: "''Total Factura'' \<in> claves (configuracion self) c'"
        by blast
      from ok c' obtain y where y: "c' = CStr y" by blast
      from c' Cons.prems(2) c True have "y \<noteq> ''Factura''" using y by auto
      then show False using k y Total_Factura_no_clave by blast
    qed
    with m have "map_of d' ''Total Factura'' = map_of d1 ''Total Factura''" by blast
    with v tc have "map_of d' ''Total Factura'' = Some (total_columna self (CStr ''Factura''))"
      by simp
    moreover have "totales_bucle self (c # cs) d = Inr d'" using p run c by simp
    ultimately show ?thesis by blast
  next
    case False
    with Cons.prems(3) c have "CStr ''Factura'' \<in> set cs" by simp
    moreover have "distinct cs" using Cons.prems(2) by simp
    ultimately obtain d' where run: "totales_bucle self cs d1 = Inr d'"
      and v: "map_of d' ''Total Factura'' = Some (total_columna self (CStr ''Factura''))"
      using Cons.IH [OF ok, of d1] by blast
    have "totales_bucle self (c # cs) d = Inr d'" using p run c by simp
    with v show ?thesis by blast
  qed
qed

text \<open>
  C10. When a column is named \<^verbatim>\<open>Factura\<close>, the loop records its total under the key
  \<^verbatim>\<open>Total Factura\<close>; the final assignment of the grand total replaces that value
  in place: the returned mapping has the keys of the loop's mapping, each once, and
  \<^verbatim>\<open>Total Factura\<close> is the grand total.
\<close>

theorem C10_total_factura_sobrescrito:
  assumes "distinct (columns hoja)" and "(CStr ''Factura'', col) \<in> set hoja"
  shows "\<exists>self d.
           ExcelAnalyzer leer hoja cfg = Inr self
           \<and> CStr ''Factura'' \<in> set (columnas_monetarias self)
           \<and> totales_bucle self (columnas_monetarias self) [] = Inr d
           \<and> map_of d ''Total Factura'' = Some (total_columna self (CStr ''Factura''))
           \<and> calcular_totales_financieros self
               = Inr (setitem d ''Total Factura'' (suma_total_con_iva d))
           \<and> map fst (setitem d ''Total Factura'' (suma_total_con_iva d)) = map fst d
           \<and> distinct (map fst (setitem d ''Total Factura'' (suma_total_con_iva d)))
           \<and> map_of (setitem d ''Total Factura'' (suma_total_con_iva d)) ''Total Factura''
               = Some (suma_total_con_iva d)"
proof -
  let ?G = "\<lambda>(c, col). (c, if es_financiera c then fillna 0 (to_numeric leer col) else col)"
  let ?ms = "filter es_financiera (columns hoja)"
  let ?self = "\<lparr>df = map ?G hoja, columnas_monetarias = ?ms,
          columnas_no_monetarias = filter (\<lambda>col. \<not> es_financiera col) (columns hoja),
          configuracion = cfg\<rparr>"
  have init: "ExcelAnalyzer leer hoja cfg = Inr ?self"
    using assms(1) by (rule ExcelAnalyzer_eq)
  have ok: "\<forall>c \<in> set ?ms. \<exists>s col t. c = CStr s \<and> df_getitem (df ?self) c = Inr col
                  \<and> series_sum col = Inr t"
    using analyzer_ok [OF assms(1)] by simp
  have fin: "es_financiera (CStr ''Factura'')"
    by (simp add: COLUMNAS_FINANCIERAS_def lower_def lower_char_def)
  from assms(2) have "CStr ''Factura'' \<in> set (columns hoja)" by (force simp: columns_def)
  with fin have mem: "CStr ''Factura'' \<in> set ?ms" by simp
  have dist: "distinct ?ms" using assms(1) by simp
  from bucle_Total_Factura [OF ok dist mem, of "[]"]
  obtain d where run: "totales_bucle ?self ?ms [] = Inr d"
    and v: "map_of d ''Total Factura'' = Some (total_columna ?self (CStr ''Factura''))"
    by blast
  from bucle_claves [OF ok, of "[]"]
  obtain d2 where r2: "totales_bucle ?self ?ms [] = Inr d2"
    and i2: "distinct (map fst ([] :: totales)) \<longrightarrow> distinct (map fst d2)"
    by blast
  from r2 run have "d2 = d" by simp
  with i2 have dd: "distinct (map fst d)" by simp
  from v have "(''Total Factura'', total_columna ?self (CStr ''Factura'')) \<in> set d"
    by (rule map_of_SomeD)
  then have k: "''Total Factura'' \<in> set (map fst d)" by force
  let ?t = "setitem d ''Total Factura'' (suma_total_con_iva d)"
  have calc: "calcular_totales_financieros ?self = Inr ?t"
    unfolding calcular_totales_financieros_def using run by simp
  have keys: "map fst ?t = map fst d" using k by (rule map_fst_setitem_in)
  have dt: "distinct (map fst ?t)" using dd by (rule distinct_setitem)
  have look: "map_of ?t ''Total Factura'' = Some (suma_total_con_iva d)"
    by (simp only: map_of_setitem refl if_True)
  have mem': "CStr ''Factura'' \<in> set (columnas_monetarias ?self)" using mem by simp
  have run': "totales_bucle ?self (columnas_monetarias ?self) [] = Inr d" using run by simp
  show ?thesis
  proof (intro exI [of _ ?self] exI [of _ d] conjI)
    show "ExcelAnalyzer leer hoja cfg = Inr ?self" by (rule init)
    show "CStr ''Factura'' \<in> set (columnas_monetarias ?self)" by (rule mem')
    show "totales_bucle ?self (columnas_monetarias ?self) [] = Inr d" by (rule run')
    show "map_of d ''Total Factura'' = Some (total_columna ?self (CStr ''Factura''))" by (rule v)
    show "calcular_totales_financieros ?self = Inr ?t" by (rule calc)
    show "map fst ?t = map fst d" by (rule keys)
    show "distinct (map fst ?t)" by (rule dt)
    show "map_of ?t ''Total Factura'' = Some (suma_total_con_iva d)" by (rule look)
  qed
qed

theorem C10_total_factura_sobrescrito_witness:
  "distinct (columns hoja_F)
   \<and> (CStr ''Factura'', [Num 100]) \<in> set hoja_F
   \<and> (\<exists>self. ExcelAnalyzer lector_digitos hoja_F sin_configuracion = Inr self
         \<and> total_columna self (CStr ''Factura'') = 100
         \<and> calcular_totales_financieros self
             = Inr [(''Total Factura'', 116), (''IVA de Factura'', 16),
                    (''Total con IVA de Factura'', 116)])"
proof -
  have h1: "distinct (columns hoja_F)" by (simp add: hoja_F_def columns_def)
  have h2: "(CStr ''Factura'', [Num 100]) \<in> set hoja_F" by (simp add: hoja_F_def)
  from C10_total_factura_sobrescrito [OF h1 h2, of lector_digitos sin_configuracion]
  obtain self where a: "ExcelAnalyzer lector_digitos hoja_F sin_configuracion = Inr self"
    by blast
  let ?s = "\<lparr>df = hoja_F, columnas_monetarias = [CStr ''Factura''],
             columnas_no_monetarias = [CStr ''Nota''], configuracion = sin_configuracion\<rparr>"
  have "ExcelAnalyzer lector_digitos hoja_F sin_configuracion = Inr ?s"
    by (simp add: evalua hoja_F_def)
  with a have s: "self = ?s" by simp
  have "total_columna ?s (CStr ''Factura'') = 100"
    by (simp add: total_columna_def hoja_F_def df_getitem_def)
  moreover have "calcular_totales_financieros ?s
             = Inr [(''Total Factura'', 116), (''IVA de Factura'', 16),
                    (''Total con IVA de Factura'', 116)]"
    by (simp add: evalua hoja_F_def)
  ultimately show ?thesis using h1 h2 a s by auto
qed

end
